theory Spec2Isabelle
  imports Main "HOL-Library.Word"
begin

section \<open>The header as data\<close>

text \<open>
  \<^verbatim>\<open>pgmspace.h\<close> consists of preprocessor directives and typedefs only. It is embedded
  line by line: one \<open>line\<close> per source line, macro replacement lists as syntax trees of the
  C fragment they are written in, and the C types they name as a datatype.
\<close>

datatype ctype =
    TVoid
  | TChar
  | TUChar
  | TUShort
  | TULong
  | TFloat
  | TName string
  | TConst ctype
  | TPtr ctype

datatype expr =
    Var string
  | StrLit string
  | Paren expr
  | Call string "expr list"
  | Cast ctype expr
  | Deref expr

datatype mbody = BEmpty | BType ctype | BExpr expr

datatype line =
    IfNDef string
  | Define string "string list option" mbody
  | Include string
  | Typedef ctype string
  | EndIf
  | Blank

definition pgmspace_h :: "line list" where
  "pgmspace_h =
   [ IfNDef ''__PGMSPACE_H_'',
     Define ''__PGMSPACE_H_'' None BEmpty,
     Blank,
     Include ''inttypes.h'',
     Blank,
     Define ''PROGMEM'' None BEmpty,
     Define ''PGM_P'' None (BType (TPtr (TConst TChar))),
     Define ''PSTR'' (Some [''str'']) (BExpr (Paren (Var ''str''))),
     Blank,
     Define ''_SFR_BYTE'' (Some [''n'']) (BExpr (Paren (Var ''n''))),
     Blank,
     Typedef TVoid ''prog_void'',
     Typedef TChar ''prog_char'',
     Typedef TUChar ''prog_uchar'',
     Typedef (TName ''int8_t'') ''prog_int8_t'',
     Typedef (TName ''uint8_t'') ''prog_uint8_t'',
     Typedef (TName ''int16_t'') ''prog_int16_t'',
     Typedef (TName ''uint16_t'') ''prog_uint16_t'',
     Typedef (TName ''int32_t'') ''prog_int32_t'',
     Typedef (TName ''uint32_t'') ''prog_uint32_t'',
     Typedef (TName ''int64_t'') ''prog_int64_t'',
     Typedef (TName ''uint64_t'') ''prog_uint64_t'',
     Blank,
     Define ''memchr_P'' (Some [''str'', ''c'', ''len''])
       (BExpr (Call ''memchr'' [Paren (Var ''str''), Paren (Var ''c''), Paren (Var ''len'')])),
     Define ''memcmp_P'' (Some [''a'', ''b'', ''n''])
       (BExpr (Call ''memcmp'' [Paren (Var ''a''), Paren (Var ''b''), Paren (Var ''n'')])),
     Define ''memcpy_P'' (Some [''dest'', ''src'', ''n''])
       (BExpr (Call ''memcpy'' [Paren (Var ''dest''), Paren (Var ''src''), Paren (Var ''n'')])),
     Define ''memmem_P'' (Some [''a'', ''alen'', ''b'', ''blen''])
       (BExpr (Call ''memmem''
          [Paren (Var ''a''), Paren (Var ''alen''), Paren (Var ''b''), Paren (Var ''blen'')])),
     Define ''memrchr_P'' (Some [''str'', ''val'', ''len''])
       (BExpr (Call ''memrchr'' [Paren (Var ''str''), Paren (Var ''val''), Paren (Var ''len'')])),
     Define ''strcat_P'' (Some [''dest'', ''src''])
       (BExpr (Call ''strcat'' [Paren (Var ''dest''), Paren (Var ''src'')])),
     Define ''strchr_P'' (Some [''str'', ''c''])
       (BExpr (Call ''strchr'' [Paren (Var ''str''), Paren (Var ''c'')])),
     Define ''strchrnul_P'' (Some [''str'', ''c''])
       (BExpr (Call ''strchrnul'' [Paren (Var ''str''), Paren (Var ''c'')])),
     Define ''strcmp_P'' (Some [''a'', ''b''])
       (BExpr (Call ''strcmp'' [Paren (Var ''a''), Paren (Var ''b'')])),
     Define ''strcpy_P'' (Some [''dest'', ''src''])
       (BExpr (Call ''strcpy'' [Paren (Var ''dest''), Paren (Var ''src'')])),
     Define ''strcasecmp_P'' (Some [''a'', ''b''])
       (BExpr (Call ''strcasecmp'' [Paren (Var ''a''), Paren (Var ''b'')])),
     Define ''strcasestr_P'' (Some [''a'', ''b''])
       (BExpr (Call ''strcasestr'' [Paren (Var ''a''), Paren (Var ''b'')])),
     Define ''strcspn_P'' (Some [''a'', ''b''])
       (BExpr (Call ''strcspn'' [Paren (Var ''a''), Paren (Var ''b'')])),
     Define ''strlcat_P'' (Some [''dest'', ''src'', ''n''])
       (BExpr (Call ''strlcat'' [Paren (Var ''dest''), Paren (Var ''src''), Paren (Var ''n'')])),
     Define ''strlcpy_P'' (Some [''dest'', ''src'', ''n''])
       (BExpr (Call ''strlcpy'' [Paren (Var ''dest''), Paren (Var ''src''), Paren (Var ''n'')])),
     Define ''strlen_P'' (Some [''s''])
       (BExpr (Call ''strlen'' [Paren (Var ''s'')])),
     Define ''strnlen_P'' (Some [''s'', ''n''])
       (BExpr (Call ''strnlen'' [Paren (Var ''s''), Paren (Var ''n'')])),
     Define ''strncmp_P'' (Some [''a'', ''b'', ''n''])
       (BExpr (Call ''strncmp'' [Paren (Var ''a''), Paren (Var ''b''), Paren (Var ''n'')])),
     Define ''strncasecmp_P'' (Some [''a'', ''b'', ''n''])
       (BExpr (Call ''strncasecmp'' [Paren (Var ''a''), Paren (Var ''b''), Paren (Var ''n'')])),
     Define ''strncat_P'' (Some [''a'', ''b'', ''n''])
       (BExpr (Call ''strncat'' [Paren (Var ''a''), Paren (Var ''b''), Paren (Var ''n'')])),
     Define ''strncpy_P'' (Some [''a'', ''b'', ''n''])
       (BExpr (Call ''strncpy'' [Paren (Var ''a''), Paren (Var ''b''), Paren (Var ''n'')])),
     Define ''strpbrk_P'' (Some [''a'', ''b''])
       (BExpr (Call ''strpbrk'' [Paren (Var ''a''), Paren (Var ''b'')])),
     Define ''strrchr_P'' (Some [''str'', ''c''])
       (BExpr (Call ''strrchr'' [Paren (Var ''str''), Paren (Var ''c'')])),
     Define ''strsep_P'' (Some [''sp'', ''b''])
       (BExpr (Call ''strsep'' [Paren (Var ''sp''), Paren (Var ''b'')])),
     Define ''strspn_P'' (Some [''a'', ''b''])
       (BExpr (Call ''strspn'' [Paren (Var ''a''), Paren (Var ''b'')])),
     Define ''strstr_P'' (Some [''a'', ''b''])
       (BExpr (Call ''strstr'' [Paren (Var ''a''), Paren (Var ''b'')])),
     Define ''strtok_P'' (Some [''s'', ''d''])
       (BExpr (Call ''strtok'' [Paren (Var ''s''), Paren (Var ''d'')])),
     Define ''strtok_rP'' (Some [''s'', ''d'', ''p''])
       (BExpr (Call ''strtok_r'' [Paren (Var ''s''), Paren (Var ''d''), Paren (Var ''p'')])),
     Blank,
     Define ''pgm_read_byte'' (Some [''addr''])
       (BExpr (Paren (Deref (Cast (TPtr (TConst TUChar)) (Paren (Var ''addr'')))))),
     Define ''pgm_read_word'' (Some [''addr''])
       (BExpr (Paren (Deref (Cast (TPtr (TConst TUShort)) (Paren (Var ''addr'')))))),
     Define ''pgm_read_dword'' (Some [''addr''])
       (BExpr (Paren (Deref (Cast (TPtr (TConst TULong)) (Paren (Var ''addr'')))))),
     Define ''pgm_read_float'' (Some [''addr''])
       (BExpr (Paren (Deref (Cast (TPtr (TConst TFloat)) (Paren (Var ''addr'')))))),
     Define ''pgm_read_ptr'' (Some [''addr''])
       (BExpr (Paren (Deref (Cast (TPtr (TConst (TPtr TVoid))) (Paren (Var ''addr'')))))),
     Blank,
     Define ''pgm_read_byte_near'' (Some [''addr''])
       (BExpr (Call ''pgm_read_byte'' [Var ''addr''])),
     Define ''pgm_read_word_near'' (Some [''addr''])
       (BExpr (Call ''pgm_read_word'' [Var ''addr''])),
     Define ''pgm_read_dword_near'' (Some [''addr''])
       (BExpr (Call ''pgm_read_dword'' [Var ''addr''])),
     Define ''pgm_read_float_near'' (Some [''addr''])
       (BExpr (Call ''pgm_read_float'' [Var ''addr''])),
     Define ''pgm_read_ptr_near'' (Some [''addr''])
       (BExpr (Call ''pgm_read_ptr'' [Var ''addr''])),
     Blank,
     Define ''pgm_read_byte_far'' (Some [''addr''])
       (BExpr (Call ''pgm_read_byte'' [Var ''addr''])),
     Define ''pgm_read_word_far'' (Some [''addr''])
       (BExpr (Call ''pgm_read_word'' [Var ''addr''])),
     Define ''pgm_read_dword_far'' (Some [''addr''])
       (BExpr (Call ''pgm_read_dword'' [Var ''addr''])),
     Define ''pgm_read_float_far'' (Some [''addr''])
       (BExpr (Call ''pgm_read_float'' [Var ''addr''])),
     Define ''pgm_read_ptr_far'' (Some [''addr''])
       (BExpr (Call ''pgm_read_ptr'' [Var ''addr''])),
     Blank,
     EndIf ]"

section \<open>Preprocessing a file\<close>

text \<open>
  The state of a translation unit while it is preprocessed: the macros defined so far
  (in order of definition), the typedef names declared so far, the system headers
  included, and the diagnostics issued. \<open>#define\<close> of a name that is already defined
  differently is diagnosed, and so is a second \<open>typedef\<close> of a name (C99 allows one
  declaration of a typedef name in a scope): these are the redefinitions an include
  guard is there to prevent. A typedef is recorded with the type it stands for, earlier
  typedef names replaced. A system header is recorded by name; what it declares is
  given below, where the types are evaluated.
\<close>

datatype diag =
    MacroRedefined string
  | TypedefRedefined string
  | EndifWithoutIf
  | UnterminatedConditional

type_synonym macro_table = "(string \<times> (string list option \<times> mbody)) list"

record cpp_state =
  macros :: macro_table
  typedefs :: "(string \<times> ctype) list"
  included :: "string list"
  diags :: "diag list"

definition init_state :: cpp_state where
  "init_state = \<lparr> macros = [], typedefs = [], included = [], diags = [] \<rparr>"

definition defined :: "cpp_state \<Rightarrow> string \<Rightarrow> bool" where
  "defined s n = (map_of (macros s) n \<noteq> None)"

fun canon :: "(string \<times> ctype) list \<Rightarrow> ctype \<Rightarrow> ctype" where
  "canon tds (TName n) = (case map_of tds n of Some t \<Rightarrow> t | None \<Rightarrow> TName n)"
| "canon tds (TConst t) = TConst (canon tds t)"
| "canon tds (TPtr t) = TPtr (canon tds t)"
| "canon tds t = t"

fun exec_line :: "line \<Rightarrow> cpp_state \<Rightarrow> cpp_state" where
  "exec_line (Define n ps b) s =
     (case map_of (macros s) n of
        None \<Rightarrow> s\<lparr> macros := macros s @ [(n, (ps, b))] \<rparr>
      | Some d \<Rightarrow>
          if d = (ps, b) then s
          else s\<lparr> macros := filter (\<lambda>m. fst m \<noteq> n) (macros s) @ [(n, (ps, b))],
                  diags := diags s @ [MacroRedefined n] \<rparr>)"
| "exec_line (Typedef ty n) s =
     (case map_of (typedefs s) n of
        None \<Rightarrow> s\<lparr> typedefs := typedefs s @ [(n, canon (typedefs s) ty)] \<rparr>
      | Some t \<Rightarrow> s\<lparr> diags := diags s @ [TypedefRedefined n] \<rparr>)"
| "exec_line (Include h) s =
     (if h \<in> set (included s) then s else s\<lparr> included := included s @ [h] \<rparr>)"
| "exec_line l s = s"

definition active :: "bool list \<Rightarrow> bool" where
  "active stk = (case stk of [] \<Rightarrow> True | b # bs \<Rightarrow> b)"

fun run_lines :: "line list \<Rightarrow> bool list \<Rightarrow> cpp_state \<Rightarrow> cpp_state" where
  "run_lines [] stk s =
     (if stk = [] then s else s\<lparr> diags := diags s @ [UnterminatedConditional] \<rparr>)"
| "run_lines (IfNDef g # ls) stk s = run_lines ls ((active stk \<and> \<not> defined s g) # stk) s"
| "run_lines (EndIf # ls) stk s =
     (case stk of
        [] \<Rightarrow> run_lines ls [] (s\<lparr> diags := diags s @ [EndifWithoutIf] \<rparr>)
      | b # bs \<Rightarrow> run_lines ls bs s)"
| "run_lines (l # ls) stk s = run_lines ls stk (if active stk then exec_line l s else s)"

definition include_file :: "line list \<Rightarrow> cpp_state \<Rightarrow> cpp_state" where
  "include_file f s = run_lines f [] s"

definition tu :: cpp_state where
  "tu = include_file pgmspace_h init_state"

text \<open>The macro definitions a file contains, in order.\<close>

fun defines_of :: "line list \<Rightarrow> macro_table" where
  "defines_of [] = []"
| "defines_of (Define n ps b # ls) = (n, (ps, b)) # defines_of ls"
| "defines_of (l # ls) = defines_of ls"

text \<open>The lines that are neither \<open>#ifndef\<close> nor \<open>#endif\<close>, and running them in order.\<close>

fun plain :: "line \<Rightarrow> bool" where
  "plain (IfNDef g) = False"
| "plain EndIf = False"
| "plain l = True"

definition exec_all :: "line list \<Rightarrow> cpp_state \<Rightarrow> cpp_state" where
  "exec_all ls s = foldl (\<lambda>s l. exec_line l s) s ls"

section \<open>Macro replacement\<close>

text \<open>
  A function-like macro invocation is replaced by the macro's replacement list with each
  parameter replaced by the corresponding argument, itself completely macro-replaced
  first; the result is rescanned with the macro being replaced disabled. An invocation
  with the wrong number of arguments, and an object-like macro that does not stand for
  an expression used as one, are errors (\<open>None\<close>). The name of a function-like macro
  without an argument list is left alone, and so is every name that is not a macro.
  In \<open>expand ms ps e\<close>, \<open>ms\<close> are the macros that may still be replaced and \<open>ps\<close> binds
  the parameters of the macro whose replacement list \<open>e\<close> comes from to their arguments.
\<close>

definition disable :: "string \<Rightarrow> macro_table \<Rightarrow> macro_table" where
  "disable n ms = filter (\<lambda>m. fst m \<noteq> n) ms"

function expand :: "macro_table \<Rightarrow> (string \<times> expr) list \<Rightarrow> expr \<Rightarrow> expr option" where
  "expand ms ps (Var x) =
     (case map_of ps x of
        Some a \<Rightarrow> Some a
      | None \<Rightarrow>
          (case map_of ms x of
             Some (None, BExpr b) \<Rightarrow> expand (disable x ms) [] b
           | Some (None, BEmpty) \<Rightarrow> None
           | Some (None, BType t) \<Rightarrow> None
           | Some (Some qs, b) \<Rightarrow> Some (Var x)
           | None \<Rightarrow> Some (Var x)))"
| "expand ms ps (StrLit s) = Some (StrLit s)"
| "expand ms ps (Paren e) = map_option Paren (expand ms ps e)"
| "expand ms ps (Cast ty e) = map_option (Cast ty) (expand ms ps e)"
| "expand ms ps (Deref e) = map_option Deref (expand ms ps e)"
| "expand ms ps (Call f args) =
     (case those (map (expand ms ps) args) of
        None \<Rightarrow> None
      | Some as \<Rightarrow>
          (case map_of ms f of
             Some (Some qs, BExpr b) \<Rightarrow>
               if length qs = length as then expand (disable f ms) (zip qs as) b else None
           | Some (Some qs, BEmpty) \<Rightarrow> None
           | Some (Some qs, BType t) \<Rightarrow> None
           | Some (None, b) \<Rightarrow> Some (Call f as)
           | None \<Rightarrow> Some (Call f as)))"
  by pat_completeness auto
termination
proof -
  have dis: "length (disable n ms) < length ms" if "map_of ms n = Some d"
    for n d and ms :: macro_table
  proof -
    from that have "(n, d) \<in> set ms" by (rule map_of_SomeD)
    then show ?thesis
      unfolding disable_def by (intro length_filter_less [where x = "(n, d)"]) auto
  qed
  show ?thesis
    apply (relation "measures [\<lambda>(ms, ps, e). length ms, \<lambda>(ms, ps, e). size e]")
    apply (auto simp: dis less_Suc_eq_le size_list_estimation')
    done
qed


definition expand_in :: "cpp_state \<Rightarrow> expr \<Rightarrow> expr option" where
  "expand_in s e = expand (macros s) [] e"

section \<open>Evaluating the C fragment\<close>

text \<open>
  Memory is a partial map from addresses to bytes (the allocated ones). The widths of
  \<open>unsigned short\<close>, \<open>unsigned long\<close>, \<open>float\<close> and pointers, the byte order and the
  alignment rule belong to the compiler, not to the header: they are a parameter. The
  exact-width types of \<open>inttypes.h\<close> are as the C standard fixes them. The library
  functions the macros forward to are a parameter of the environment: a function of the
  argument values and the memory, returning a value and the memory after the call.
\<close>

type_synonym byte = "8 word"
type_synonym memory = "nat \<Rightarrow> byte option"

record platform =
  sizeof_short :: nat
  sizeof_long :: nat
  sizeof_float :: nat
  sizeof_ptr :: nat
  big_endian :: bool
  strict_align :: bool
  char_signed :: bool

datatype cval = VInt int | VPtr ctype nat | VFloat "byte list"

definition stdint :: "string \<Rightarrow> (bool \<times> nat) option" where
  "stdint n =
     (if n = ''int8_t'' then Some (True, 8)
      else if n = ''uint8_t'' then Some (False, 8)
      else if n = ''int16_t'' then Some (True, 16)
      else if n = ''uint16_t'' then Some (False, 16)
      else if n = ''int32_t'' then Some (True, 32)
      else if n = ''uint32_t'' then Some (False, 32)
      else if n = ''int64_t'' then Some (True, 64)
      else if n = ''uint64_t'' then Some (False, 64)
      else None)"

fun int_repr :: "platform \<Rightarrow> ctype \<Rightarrow> (bool \<times> nat) option" where
  "int_repr P TChar = Some (char_signed P, 8)"
| "int_repr P TUChar = Some (False, 8)"
| "int_repr P TUShort = Some (False, 8 * sizeof_short P)"
| "int_repr P TULong = Some (False, 8 * sizeof_long P)"
| "int_repr P (TName n) = stdint n"
| "int_repr P (TConst t) = int_repr P t"
| "int_repr P t = None"

fun sizeof :: "platform \<Rightarrow> ctype \<Rightarrow> nat option" where
  "sizeof P TVoid = None"
| "sizeof P TFloat = Some (sizeof_float P)"
| "sizeof P (TPtr t) = Some (sizeof_ptr P)"
| "sizeof P (TConst t) = sizeof P t"
| "sizeof P t = map_option (\<lambda>r. snd r div 8) (int_repr P t)"

definition le_value :: "byte list \<Rightarrow> nat" where
  "le_value bs = foldr (\<lambda>b acc. unat b + 256 * acc) bs 0"

definition uint_value :: "platform \<Rightarrow> byte list \<Rightarrow> nat" where
  "uint_value P bs = le_value (if big_endian P then rev bs else bs)"

fun decode :: "platform \<Rightarrow> ctype \<Rightarrow> byte list \<Rightarrow> cval option" where
  "decode P TVoid bs = None"
| "decode P TFloat bs = Some (VFloat bs)"
| "decode P (TPtr t) bs = Some (VPtr t (uint_value P bs))"
| "decode P (TConst t) bs = decode P t bs"
| "decode P t bs =
     (case int_repr P t of
        None \<Rightarrow> None
      | Some (sg, w) \<Rightarrow>
          let u = int (uint_value P bs)
          in Some (VInt (if sg \<and> 2 ^ (w - 1) \<le> u then u - 2 ^ w else u)))"

definition mem_bytes :: "memory \<Rightarrow> nat \<Rightarrow> nat \<Rightarrow> byte list option" where
  "mem_bytes mem a n = those (map mem [a ..< a + n])"

definition load :: "platform \<Rightarrow> memory \<Rightarrow> ctype \<Rightarrow> nat \<Rightarrow> cval option" where
  "load P mem ty a =
     (case sizeof P ty of
        None \<Rightarrow> None
      | Some n \<Rightarrow>
          if n = 0 \<or> (strict_align P \<and> a mod n \<noteq> 0) then None
          else (case mem_bytes mem a n of
                  None \<Rightarrow> None
                | Some bs \<Rightarrow> decode P ty bs))"

text \<open>
  The address a value denotes when it is converted to a pointer: a pointer keeps its
  address, an integer in the range of a pointer is that address, nothing else converts.
  The only casts of the header are to pointer types; a cast to any other type is outside
  the fragment. Dereferencing a pointer loads the object of the pointed-to type: all its
  bytes must be allocated and, where the platform demands it, the address aligned.
\<close>

fun address_of :: "platform \<Rightarrow> cval \<Rightarrow> nat option" where
  "address_of P (VPtr u a) = Some a"
| "address_of P (VInt i) =
     (if 0 \<le> i \<and> i < 2 ^ (8 * sizeof_ptr P) then Some (nat i) else None)"
| "address_of P (VFloat bs) = None"

fun cast :: "platform \<Rightarrow> ctype \<Rightarrow> cval \<Rightarrow> cval option" where
  "cast P (TPtr t) v = map_option (VPtr t) (address_of P v)"
| "cast P ty v = None"

record env =
  plat :: platform
  vars :: "string \<Rightarrow> cval option"
  literal :: "string \<Rightarrow> nat"
  libc :: "string \<Rightarrow> cval list \<Rightarrow> memory \<Rightarrow> (cval \<times> memory) option"

fun eval :: "env \<Rightarrow> memory \<Rightarrow> expr \<Rightarrow> (cval \<times> memory) option"
  and eval_args :: "env \<Rightarrow> memory \<Rightarrow> expr list \<Rightarrow> (cval list \<times> memory) option" where
  "eval E mem (Var x) = map_option (\<lambda>v. (v, mem)) (vars E x)"
| "eval E mem (StrLit s) = Some (VPtr TChar (literal E s), mem)"
| "eval E mem (Paren e) = eval E mem e"
| "eval E mem (Call f args) =
     (case eval_args E mem args of
        None \<Rightarrow> None
      | Some (vs, mem') \<Rightarrow> libc E f vs mem')"
| "eval E mem (Cast ty e) =
     (case eval E mem e of
        None \<Rightarrow> None
      | Some (v, mem') \<Rightarrow> map_option (\<lambda>p. (p, mem')) (cast (plat E) ty v))"
| "eval E mem (Deref e) =
     (case eval E mem e of
        Some (VPtr ty a, mem') \<Rightarrow> map_option (\<lambda>v. (v, mem')) (load (plat E) mem' ty a)
      | _ \<Rightarrow> None)"
| "eval_args E mem [] = Some ([], mem)"
| "eval_args E mem (e # es) =
     (case eval E mem e of
        None \<Rightarrow> None
      | Some (v, mem') \<Rightarrow>
          (case eval_args E mem' es of
             None \<Rightarrow> None
           | Some (vs, mem'') \<Rightarrow> Some (v # vs, mem'')))"

definition run_expr :: "cpp_state \<Rightarrow> env \<Rightarrow> memory \<Rightarrow> expr \<Rightarrow> (cval \<times> memory) option" where
  "run_expr s E mem e =
     (case expand_in s e of None \<Rightarrow> None | Some e' \<Rightarrow> eval E mem e')"

section \<open>The contract the header is checked against\<close>

text \<open>
  The ordinary-memory counterpart of each \<open>_P\<close> function, with the number of arguments
  the C library function takes.
\<close>

definition ordinary_counterpart :: "(string \<times> string \<times> nat) list" where
  "ordinary_counterpart =
   [ (''memchr_P'', ''memchr'', 3), (''memcmp_P'', ''memcmp'', 3),
     (''memcpy_P'', ''memcpy'', 3), (''memmem_P'', ''memmem'', 4),
     (''memrchr_P'', ''memrchr'', 3), (''strcat_P'', ''strcat'', 2),
     (''strchr_P'', ''strchr'', 2), (''strchrnul_P'', ''strchrnul'', 2),
     (''strcmp_P'', ''strcmp'', 2), (''strcpy_P'', ''strcpy'', 2),
     (''strcasecmp_P'', ''strcasecmp'', 2), (''strcasestr_P'', ''strcasestr'', 2),
     (''strcspn_P'', ''strcspn'', 2), (''strlcat_P'', ''strlcat'', 3),
     (''strlcpy_P'', ''strlcpy'', 3), (''strlen_P'', ''strlen'', 1),
     (''strnlen_P'', ''strnlen'', 2), (''strncmp_P'', ''strncmp'', 3),
     (''strncasecmp_P'', ''strncasecmp'', 3), (''strncat_P'', ''strncat'', 3),
     (''strncpy_P'', ''strncpy'', 3), (''strpbrk_P'', ''strpbrk'', 2),
     (''strrchr_P'', ''strrchr'', 2), (''strsep_P'', ''strsep'', 2),
     (''strspn_P'', ''strspn'', 2), (''strstr_P'', ''strstr'', 2),
     (''strtok_P'', ''strtok'', 2), (''strtok_rP'', ''strtok_r'', 3) ]"

text \<open>
  A macro forwards its arguments unchanged to \<open>f\<close>: its replacement list is one call of
  \<open>f\<close> whose arguments are the macro's parameters, each once, in order, parenthesised.
\<close>

definition forwards_to :: "macro_table \<Rightarrow> string \<Rightarrow> string \<Rightarrow> nat \<Rightarrow> bool" where
  "forwards_to ms nm f n =
     (case map_of ms nm of
        Some (Some qs, b) \<Rightarrow>
          b = BExpr (Call f (map (\<lambda>q. Paren (Var q)) qs)) \<and> distinct qs \<and> length qs = n
      | _ \<Rightarrow> False)"

text \<open>The C type each base accessor reads, and the base accessor of each variant.\<close>

definition accessor_type :: "(string \<times> ctype) list" where
  "accessor_type =
   [ (''pgm_read_byte'', TUChar), (''pgm_read_word'', TUShort),
     (''pgm_read_dword'', TULong), (''pgm_read_float'', TFloat),
     (''pgm_read_ptr'', TPtr TVoid) ]"

definition accessor_variants :: "(string \<times> string) list" where
  "accessor_variants =
   [ (''pgm_read_byte_near'', ''pgm_read_byte''), (''pgm_read_word_near'', ''pgm_read_word''),
     (''pgm_read_dword_near'', ''pgm_read_dword''),
     (''pgm_read_float_near'', ''pgm_read_float''),
     (''pgm_read_ptr_near'', ''pgm_read_ptr''),
     (''pgm_read_byte_far'', ''pgm_read_byte''), (''pgm_read_word_far'', ''pgm_read_word''),
     (''pgm_read_dword_far'', ''pgm_read_dword''),
     (''pgm_read_float_far'', ''pgm_read_float''),
     (''pgm_read_ptr_far'', ''pgm_read_ptr'') ]"

definition read_type :: "(string \<times> ctype) list" where
  "read_type =
     accessor_type @
     concat (map (\<lambda>(v, b). case map_of accessor_type b of None \<Rightarrow> [] | Some ty \<Rightarrow> [(v, ty)])
       accessor_variants)"

text \<open>Reading the object of type \<open>ty\<close> at an address directly, as ordinary memory.\<close>

definition direct_read :: "ctype \<Rightarrow> expr \<Rightarrow> expr" where
  "direct_read ty a = Deref (Cast (TPtr (TConst ty)) a)"

text \<open>A value is an unsigned integer of \<open>w\<close> bits.\<close>

definition unsigned_bits :: "nat \<Rightarrow> cval \<Rightarrow> bool" where
  "unsigned_bits w r = (case r of VInt i \<Rightarrow> 0 \<le> i \<and> i < 2 ^ w | _ \<Rightarrow> False)"

text \<open>The exact-width type each \<open>prog_\<close> integer alias stands for.\<close>

definition fixed_aliases :: "(string \<times> string) list" where
  "fixed_aliases =
   [ (''prog_int8_t'', ''int8_t''), (''prog_uint8_t'', ''uint8_t''),
     (''prog_int16_t'', ''int16_t''), (''prog_uint16_t'', ''uint16_t''),
     (''prog_int32_t'', ''int32_t''), (''prog_uint32_t'', ''uint32_t''),
     (''prog_int64_t'', ''int64_t''), (''prog_uint64_t'', ''uint64_t'') ]"






section \<open>Sample platforms, memory and environment\<close>

text \<open>
  Two data models a host compiler may have: LP64 (64-bit Linux: \<open>long\<close> and pointers of
  8 bytes) and ILP32 (32-bit targets: \<open>long\<close> and pointers of 4 bytes, aligned accesses).
\<close>

definition lp64 :: platform where
  "lp64 = \<lparr> sizeof_short = 2, sizeof_long = 8, sizeof_float = 4, sizeof_ptr = 8,
            big_endian = False, strict_align = False, char_signed = True \<rparr>"

definition ilp32 :: platform where
  "ilp32 = \<lparr> sizeof_short = 2, sizeof_long = 4, sizeof_float = 4, sizeof_ptr = 4,
             big_endian = False, strict_align = True, char_signed = False \<rparr>"

text \<open>
  Sixteen allocated bytes at addresses 16 to 31: the string \<open>abc\<close> with its terminator,
  four zero bytes, and eight bytes \<open>0xFF\<close>.
\<close>

definition sample_bytes :: "byte list" where
  "sample_bytes = [0x61, 0x62, 0x63, 0, 0, 0, 0, 0, 0xFF, 0xFF, 0xFF, 0xFF, 0xFF, 0xFF, 0xFF, 0xFF]"

definition sample_mem :: memory where
  "sample_mem a = (if 16 \<le> a \<and> a < 32 then Some (sample_bytes ! (a - 16)) else None)"

fun strlen_at :: "memory \<Rightarrow> nat \<Rightarrow> nat \<Rightarrow> nat option" where
  "strlen_at mem a 0 = None"
| "strlen_at mem a (Suc k) =
     (case mem a of
        None \<Rightarrow> None
      | Some b \<Rightarrow> if b = 0 then Some 0 else map_option Suc (strlen_at mem (Suc a) k))"

definition sample_libc :: "string \<Rightarrow> cval list \<Rightarrow> memory \<Rightarrow> (cval \<times> memory) option" where
  "sample_libc f vs mem =
     (if f = ''strlen''
      then (case vs of
              [VPtr t a] \<Rightarrow> map_option (\<lambda>n. (VInt (int n), mem)) (strlen_at mem a 16)
            | _ \<Rightarrow> None)
      else None)"

definition sample_env :: "platform \<Rightarrow> env" where
  "sample_env P =
     \<lparr> plat = P,
       vars = [''s'' \<mapsto> VPtr TChar 16, ''d'' \<mapsto> VPtr TVoid 20, ''p'' \<mapsto> VPtr TVoid 24,
               ''q'' \<mapsto> VPtr TVoid 30],
       literal = (\<lambda>s. 16),
       libc = sample_libc \<rparr>"

section \<open>Facts about macro replacement\<close>

lemma macros_tu: "macros tu = defines_of pgmspace_h"
  by code_simp

lemma those_length: "those xs = Some ys \<Longrightarrow> length ys = length xs"
  by (induction xs arbitrary: ys) (auto split: option.splits)

lemma map_of_disable_other: "n \<noteq> k \<Longrightarrow> map_of (disable n ms) k = map_of ms k"
  unfolding disable_def by (induction ms) auto

lemma map_of_disable_None: "map_of ms k = None \<Longrightarrow> map_of (disable n ms) k = None"
  unfolding disable_def by (induction ms) (auto split: if_splits)

lemma expand_params:
  assumes "length qs = length as"
    and "\<forall>i < length qs. map_of ps (qs ! i) = Some (as ! i)"
  shows "those (map (\<lambda>q. expand ms ps (Paren (Var q))) qs) = Some (map Paren as)"
  using assms
proof (induction qs as rule: list_induct2)
  case Nil
  then show ?case by simp
next
  case (Cons q qs a as)
  from Cons.prems have "map_of ps q = Some a" by force
  moreover from Cons.prems have "\<forall>i < length qs. map_of ps (qs ! i) = Some (as ! i)" by force
  ultimately show ?case using Cons.IH by simp
qed

lemma expand_forward:
  assumes nm: "map_of ms nm = Some (Some qs, BExpr (Call f (map (\<lambda>q. Paren (Var q)) qs)))"
    and qs: "distinct qs" "length qs = length args"
    and f: "map_of ms f = None"
  shows "expand ms [] (Call nm args) =
         map_option (\<lambda>as. Call f (map Paren as)) (those (map (expand ms []) args))"
proof (cases "those (map (expand ms []) args)")
  case None
  then show ?thesis by simp
next
  case (Some as)
  then have len: "length qs = length as" using qs(2) by (simp add: those_length)
  have "\<forall>i < length qs. map_of (zip qs as) (qs ! i) = Some (as ! i)"
    using len qs(1) by (simp add: map_of_zip_nth)
  with len have "those (map (\<lambda>q. expand (disable nm ms) (zip qs as) (Paren (Var q))) qs)
      = Some (map Paren as)"
    by (rule expand_params)
  then have "expand (disable nm ms) (zip qs as) (Call f (map (\<lambda>q. Paren (Var q)) qs))
      = Some (Call f (map Paren as))"
    using f by (simp add: map_of_disable_None comp_def del: expand.simps(1,3))
  then show ?thesis using Some nm len by simp
qed

lemma expand_plain_call:
  "map_of ms f = None \<Longrightarrow>
   expand ms ps (Call f args) = map_option (Call f) (those (map (expand ms ps) args))"
  by (simp split: option.splits)

lemma eval_args_Paren: "eval_args E mem (map Paren as) = eval_args E mem as"
  by (induction as arbitrary: mem) (auto split: option.splits)

lemma forwards_toD:
  assumes "forwards_to ms nm f n"
  obtains qs where
    "map_of ms nm = Some (Some qs, BExpr (Call f (map (\<lambda>q. Paren (Var q)) qs)))"
    "distinct qs" "length qs = n"
proof (cases "map_of ms nm")
  case None
  with assms show ?thesis by (simp add: forwards_to_def)
next
  case (Some d)
  obtain ps b where d: "d = (ps, b)" by (cases d)
  show ?thesis
  proof (cases ps)
    case None
    with assms Some d show ?thesis by (simp add: forwards_to_def)
  next
    case (Some qs)
    with assms \<open>map_of ms nm = Some d\<close> d that [of qs] show ?thesis
      by (simp add: forwards_to_def)
  qed
qed

lemma run_forward:
  assumes fw: "forwards_to (macros s) nm f (length args)" and f: "map_of (macros s) f = None"
  shows "run_expr s E mem (Call nm args) = run_expr s E mem (Call f args)"
proof -
  from fw obtain qs where
    nm: "map_of (macros s) nm = Some (Some qs, BExpr (Call f (map (\<lambda>q. Paren (Var q)) qs)))"
    and qs: "distinct qs" "length qs = length args"
    by (rule forwards_toD)
  have "expand (macros s) [] (Call nm args) =
        map_option (\<lambda>as. Call f (map Paren as)) (those (map (expand (macros s) []) args))"
    using nm qs f by (rule expand_forward)
  moreover have "expand (macros s) [] (Call f args) =
        map_option (Call f) (those (map (expand (macros s) []) args))"
    using f by (rule expand_plain_call)
  ultimately show ?thesis
    unfolding run_expr_def expand_in_def
    by (cases "those (map (expand (macros s) []) args)")
       (simp_all add: eval_args_Paren del: expand.simps)
qed

lemma forward_table:
  "list_all (\<lambda>(nm, f, n). forwards_to (defines_of pgmspace_h) nm f n
       \<and> map_of (defines_of pgmspace_h) f = None) ordinary_counterpart"
  by code_simp

lemma forward_entry:
  assumes "(nm, f, n) \<in> set ordinary_counterpart"
  shows "forwards_to (macros tu) nm f n" and "map_of (macros tu) f = None"
  using assms forward_table by (auto simp: list_all_iff macros_tu)

section \<open>The string and memory functions\<close>

text \<open>
  Claim C1. Each \<open>_P\<close> string or memory function of the header forwards its arguments
  unchanged to its ordinary-memory counterpart: the macro's replacement list is the call
  of the counterpart on the parameters in order, and for every argument tuple of the
  counterpart's arity, every environment and every memory, the invocation of the macro
  and the call of the counterpart produce the same outcome: the same return value and
  the same memory afterwards, or both are undefined.
\<close>

theorem string_shims_forward:
  assumes "(nm, f, n) \<in> set ordinary_counterpart" and "length args = n"
  shows "forwards_to (macros tu) nm f n
       \<and> run_expr tu E mem (Call nm args) = run_expr tu E mem (Call f args)"
  using assms forward_entry [OF assms(1)] run_forward [of tu nm f args E mem] by simp

lemma sample_strlen_at: "strlen_at sample_mem 16 16 = Some 3"
  by code_simp

lemma no_macro_s: "map_of (defines_of pgmspace_h) ''s'' = None" "map_of (defines_of pgmspace_h) ''strlen'' = None"
  by code_simp+

lemma sample_strlen:
  "run_expr tu (sample_env lp64) sample_mem (Call ''strlen'' [Var ''s'']) = Some (VInt 3, sample_mem)"
  by (simp add: run_expr_def expand_in_def macros_tu no_macro_s sample_env_def sample_libc_def
      sample_strlen_at)

theorem string_shims_forward_witness:
  "(''strlen_P'', ''strlen'', 1) \<in> set ordinary_counterpart
   \<and> length [Var ''s''] = 1
   \<and> forwards_to (macros tu) ''strlen_P'' ''strlen'' 1
   \<and> run_expr tu (sample_env lp64) sample_mem (Call ''strlen_P'' [Var ''s'']) = Some (VInt 3, sample_mem)"
  using string_shims_forward [of "''strlen_P''" "''strlen''" 1 "[Var ''s'']" "sample_env lp64" sample_mem]
  by (simp add: ordinary_counterpart_def sample_strlen)

section \<open>Facts about the accessors\<close>

lemma expand_accessor:
  assumes "map_of ms nm = Some (Some [q], BExpr (Paren (Deref (Cast ty (Paren (Var q))))))"
  shows "expand ms [] (Call nm [a]) =
         map_option (\<lambda>a'. Paren (Deref (Cast ty (Paren a')))) (expand ms [] a)"
  using assms by (cases "expand ms [] a") simp_all

lemma expand_variant:
  assumes v: "map_of ms v = Some (Some [q], BExpr (Call b [Var q]))" and vb: "v \<noteq> b"
    and b: "map_of ms b = Some (Some [q'], BExpr (Paren (Deref (Cast ty (Paren (Var q'))))))"
  shows "expand ms [] (Call v [a]) =
         map_option (\<lambda>a'. Paren (Deref (Cast ty (Paren a')))) (expand ms [] a)"
proof (cases "expand ms [] a")
  case None
  then show ?thesis by simp
next
  case (Some a')
  have "map_of (disable v ms) b = map_of ms b" using vb by (rule map_of_disable_other)
  with b have "expand (disable v ms) [(q, a')] (Call b [Var q]) =
      Some (Paren (Deref (Cast ty (Paren a'))))"
    by simp
  with Some v show ?thesis by simp
qed

lemma expand_identity:
  assumes "map_of ms nm = Some (Some [q], BExpr (Paren (Var q)))"
  shows "expand ms [] (Call nm [a]) = map_option Paren (expand ms [] a)"
  using assms by (cases "expand ms [] a") simp_all

lemma accessor_table:
  "list_all (\<lambda>(nm, ty). map_of (defines_of pgmspace_h) nm =
       Some (Some [''addr''], BExpr (Paren (Deref (Cast (TPtr (TConst ty)) (Paren (Var ''addr'')))))))
     accessor_type"
  by code_simp

lemma variant_table:
  "list_all (\<lambda>(v, b). v \<noteq> b \<and> map_of (defines_of pgmspace_h) v =
       Some (Some [''addr''], BExpr (Call b [Var ''addr''])))
     accessor_variants"
  by code_simp

lemma identity_table:
  "map_of (defines_of pgmspace_h) ''PSTR'' = Some (Some [''str''], BExpr (Paren (Var ''str'')))"
  "map_of (defines_of pgmspace_h) ''_SFR_BYTE'' = Some (Some [''n''], BExpr (Paren (Var ''n'')))"
  by code_simp+

lemma accessor_entry:
  assumes "(nm, ty) \<in> set accessor_type"
  shows "map_of (macros tu) nm =
       Some (Some [''addr''], BExpr (Paren (Deref (Cast (TPtr (TConst ty)) (Paren (Var ''addr''))))))"
  using assms accessor_table by (auto simp: list_all_iff macros_tu)

lemma variant_entry:
  assumes "(v, b) \<in> set accessor_variants"
  shows "v \<noteq> b" and "map_of (macros tu) v = Some (Some [''addr''], BExpr (Call b [Var ''addr'']))"
  using assms variant_table by (auto simp: list_all_iff macros_tu)

lemma read_type_cases:
  assumes "(nm, ty) \<in> set read_type"
  shows "(nm, ty) \<in> set accessor_type
       \<or> (\<exists>b. (nm, b) \<in> set accessor_variants \<and> (b, ty) \<in> set accessor_type)"
  using assms unfolding read_type_def
  by (auto split: option.splits dest: map_of_SomeD [OF sym])

lemma expand_read:
  assumes "(nm, ty) \<in> set read_type"
  shows "expand_in tu (Call nm [a]) =
         map_option (\<lambda>a'. Paren (Deref (Cast (TPtr (TConst ty)) (Paren a')))) (expand_in tu a)"
proof -
  from read_type_cases [OF assms] show ?thesis
  proof
    assume "(nm, ty) \<in> set accessor_type"
    then show ?thesis unfolding expand_in_def by (rule expand_accessor [OF accessor_entry])
  next
    assume "\<exists>b. (nm, b) \<in> set accessor_variants \<and> (b, ty) \<in> set accessor_type"
    then obtain b where v: "(nm, b) \<in> set accessor_variants" and b: "(b, ty) \<in> set accessor_type"
      by blast
    show ?thesis unfolding expand_in_def
      by (rule expand_variant [OF variant_entry(2) [OF v] variant_entry(1) [OF v] accessor_entry [OF b]])
  qed
qed

lemma expand_direct_read:
  "expand_in s (direct_read ty a) =
   map_option (\<lambda>a'. Deref (Cast (TPtr (TConst ty)) a')) (expand_in s a)"
  by (simp add: expand_in_def direct_read_def option.map_comp comp_def)

lemma run_read:
  assumes "(nm, ty) \<in> set read_type"
  shows "run_expr tu E mem (Call nm [a]) = run_expr tu E mem (direct_read ty a)"
  unfolding run_expr_def expand_read [OF assms] expand_direct_read
  by (cases "expand_in tu a") simp_all

lemma load_const: "load P mem (TConst ty) p = load P mem ty p"
  by (simp add: load_def split: option.splits)

lemma run_direct_read:
  assumes "run_expr s E mem a = Some (v, mem')"
  shows "run_expr s E mem (direct_read ty a) =
         (case address_of (plat E) v of
            None \<Rightarrow> None
          | Some p \<Rightarrow> map_option (\<lambda>r. (r, mem')) (load (plat E) mem' ty p))"
  using assms unfolding run_expr_def expand_direct_read
  by (cases "expand_in s a") (auto simp: load_const split: option.splits)

lemma load_byte: "load P mem TUChar p = map_option (\<lambda>b. VInt (uint b)) (mem p)"
  by (cases "mem p") (simp_all add: load_def mem_bytes_def uint_value_def le_value_def)

lemma load_fixed_width:
  "load P mem TUChar p = load P mem (TName ''uint8_t'') p"
  "sizeof_short P = 2 \<Longrightarrow> load P mem TUShort p = load P mem (TName ''uint16_t'') p"
  "sizeof_long P = 4 \<Longrightarrow> load P mem TULong p = load P mem (TName ''uint32_t'') p"
  by (simp_all add: load_def stdint_def split: option.splits)

lemma accessor_in_read_type: "(nm, ty) \<in> set accessor_type \<Longrightarrow> (nm, ty) \<in> set read_type"
  by (simp add: read_type_def)

lemma variant_base_table:
  "list_all (\<lambda>(v, b). map_of accessor_type b \<noteq> None) accessor_variants"
  by code_simp

lemma variant_base:
  assumes "(v, b) \<in> set accessor_variants"
  obtains ty where "(b, ty) \<in> set accessor_type" "(v, ty) \<in> set read_type"
proof -
  from assms variant_base_table obtain ty where ty: "map_of accessor_type b = Some ty"
    by (auto simp: list_all_iff)
  then have "(b, ty) \<in> set accessor_type" by (rule map_of_SomeD)
  moreover from assms ty have "(v, ty) \<in> set read_type"
    unfolding read_type_def by (auto intro!: bexI [of _ "(v, b)"])
  ultimately show ?thesis by (rule that)
qed

lemma le_value_bound: "le_value bs < 256 ^ length bs"
proof (induction bs)
  case Nil
  then show ?case by (simp add: le_value_def)
next
  case (Cons b bs)
  have "unat b < 256" using unsigned_less [of b, where ?'a = nat] by simp
  moreover have "le_value (b # bs) = unat b + 256 * le_value bs" by (simp add: le_value_def)
  ultimately show ?case using Cons.IH by simp
qed

lemma uint_value_bound: "uint_value P bs < 2 ^ (8 * length bs)"
proof -
  have "uint_value P bs < 256 ^ length bs"
    using le_value_bound [of bs] le_value_bound [of "rev bs"] by (simp add: uint_value_def)
  also have "(256::nat) ^ length bs = 2 ^ (8 * length bs)" by (simp add: power_mult)
  finally show ?thesis .
qed

lemma mem_bytes_length: "mem_bytes mem p n = Some bs \<Longrightarrow> length bs = n"
  by (auto simp: mem_bytes_def dest: those_length)

lemma load_SomeD:
  assumes "load P mem ty p = Some r"
  obtains n bs where "sizeof P ty = Some n" "mem_bytes mem p n = Some bs" "length bs = n"
    "decode P ty bs = Some r"
  using assms unfolding load_def
  by (auto split: option.splits if_splits dest: mem_bytes_length)

lemma unsigned_bits_uint: "unsigned_bits (8 * length bs) (VInt (int (uint_value P bs)))"
proof -
  have "int (uint_value P bs) < int (2 ^ (8 * length bs))"
    using uint_value_bound [of P bs] by (simp only: of_nat_less_iff)
  then show ?thesis by (simp add: unsigned_bits_def)
qed

lemma run_read_load:
  assumes "(nm, ty) \<in> set read_type" and "run_expr tu E mem a = Some (v, mem')"
    and "address_of (plat E) v = Some p"
  shows "run_expr tu E mem (Call nm [a]) = map_option (\<lambda>r. (r, mem')) (load (plat E) mem' ty p)"
  by (simp add: run_read [OF assms(1)] run_direct_read [OF assms(2)] assms(3))

section \<open>The sample environment evaluated\<close>

lemma sample_not_macros:
  "map_of (defines_of pgmspace_h) ''s'' = None"
  "map_of (defines_of pgmspace_h) ''p'' = None"
  "map_of (defines_of pgmspace_h) ''q'' = None"
  "map_of (defines_of pgmspace_h) ''d'' = None"
  by code_simp+

lemma sample_vars:
  "run_expr tu (sample_env P) sample_mem (Var ''s'') = Some (VPtr TChar 16, sample_mem)"
  "run_expr tu (sample_env P) sample_mem (Var ''p'') = Some (VPtr TVoid 24, sample_mem)"
  "run_expr tu (sample_env P) sample_mem (Var ''q'') = Some (VPtr TVoid 30, sample_mem)"
  "run_expr tu (sample_env P) sample_mem (Var ''d'') = Some (VPtr TVoid 20, sample_mem)"
  by (simp_all add: run_expr_def expand_in_def macros_tu sample_not_macros sample_env_def)

lemma plat_sample_env: "plat (sample_env P) = P"
  by (simp add: sample_env_def)

lemma literal_sample_env: "literal (sample_env P) s = 16"
  by (simp add: sample_env_def)

lemma sample_loads:
  "load lp64 sample_mem TUChar 16 = Some (VInt 97)"
  "load lp64 sample_mem TULong 24 = Some (VInt 18446744073709551615)"
  "load ilp32 sample_mem TULong 24 = Some (VInt 4294967295)"
  "load ilp32 sample_mem TUShort 16 = Some (VInt 25185)"
  "load ilp32 sample_mem TULong 30 = None"
  "load lp64 sample_mem TULong 20 = Some (VInt 18446744069414584320)"
  "load lp64 sample_mem (TName ''uint32_t'') 20 = Some (VInt 0)"
  "load ilp32 sample_mem TULong 20 = Some (VInt 0)"
  by (simp_all add: load_def mem_bytes_def lp64_def ilp32_def sample_mem_def sample_bytes_def
      uint_value_def le_value_def stdint_def)

section \<open>The program-memory accessors\<close>

text \<open>
  Claim C2, as stated, fails for the double word. \<open>pgm_read_dword\<close> reads an
  \<open>unsigned long\<close>, which on an LP64 host has 8 bytes. At address 20 of the sample memory
  the 32-bit double word stored there (bytes 20 to 23) is 0, but \<open>pgm_read_dword\<close> reads
  bytes 20 to 27 and yields \<open>0xFFFFFFFF00000000\<close>.
\<close>

theorem dword_is_not_the_stored_double_word_on_lp64:
  "run_expr tu (sample_env lp64) sample_mem (Var ''d'') = Some (VPtr TVoid 20, sample_mem)
   \<and> address_of lp64 (VPtr TVoid 20) = Some 20
   \<and> load lp64 sample_mem (TName ''uint32_t'') 20 = Some (VInt 0)
   \<and> run_expr tu (sample_env lp64) sample_mem (Call ''pgm_read_dword'' [Var ''d''])
       = Some (VInt 18446744069414584320, sample_mem)
   \<and> run_expr tu (sample_env lp64) sample_mem (Call ''pgm_read_dword'' [Var ''d''])
       \<noteq> Some (VInt 0, sample_mem)"
proof -
  have rt: "(''pgm_read_dword'', TULong) \<in> set read_type"
    by (simp add: read_type_def accessor_type_def)
  have arg: "run_expr tu (sample_env lp64) sample_mem (Var ''d'') = Some (VPtr TVoid 20, sample_mem)"
    by (rule sample_vars)
  have "run_expr tu (sample_env lp64) sample_mem (Call ''pgm_read_dword'' [Var ''d''])
       = Some (VInt 18446744069414584320, sample_mem)"
    using run_read_load [OF rt arg, of 20] by (simp add: plat_sample_env sample_loads)
  with arg show ?thesis by (simp add: sample_loads)
qed

text \<open>
  Claim C2, amended. For each base accessor (\<open>pgm_read_byte\<close>, \<open>pgm_read_word\<close>,
  \<open>pgm_read_dword\<close>, \<open>pgm_read_float\<close>, \<open>pgm_read_ptr\<close>) and every argument that
  denotes an address \<open>p\<close>, the accessor has the outcome of reading the object of its C
  type (\<open>unsigned char\<close>, \<open>unsigned short\<close>, \<open>unsigned long\<close>, \<open>float\<close>, \<open>void *\<close>)
  directly at that argument, which is the object stored in ordinary memory at \<open>p\<close> itself:
  the address is not translated. A byte read yields exactly the byte stored at \<open>p\<close>; a
  word read yields the 16-bit word stored at \<open>p\<close> where \<open>short\<close> has 2 bytes, and a
  double-word read the 32-bit double word stored at \<open>p\<close> where \<open>long\<close> has 4 bytes.
\<close>

theorem pgm_read_is_direct_read:
  assumes "(nm, ty) \<in> set accessor_type"
    and "run_expr tu E mem a = Some (v, mem')"
    and "address_of (plat E) v = Some p"
  shows "run_expr tu E mem (Call nm [a]) = run_expr tu E mem (direct_read ty a)
       \<and> run_expr tu E mem (Call nm [a]) = map_option (\<lambda>r. (r, mem')) (load (plat E) mem' ty p)
       \<and> load (plat E) mem' TUChar p = map_option (\<lambda>b. VInt (uint b)) (mem' p)
       \<and> (sizeof_short (plat E) = 2 \<longrightarrow>
            load (plat E) mem' TUShort p = load (plat E) mem' (TName ''uint16_t'') p)
       \<and> (sizeof_long (plat E) = 4 \<longrightarrow>
            load (plat E) mem' TULong p = load (plat E) mem' (TName ''uint32_t'') p)"
  using run_read [OF accessor_in_read_type [OF assms(1)]]
    run_read_load [OF accessor_in_read_type [OF assms(1)] assms(2,3)] load_byte
    load_fixed_width(2,3)
  by simp

theorem pgm_read_is_direct_read_witness:
  "(''pgm_read_dword'', TULong) \<in> set accessor_type
   \<and> run_expr tu (sample_env ilp32) sample_mem (Var ''d'') = Some (VPtr TVoid 20, sample_mem)
   \<and> address_of ilp32 (VPtr TVoid 20) = Some 20
   \<and> sizeof_short ilp32 = 2 \<and> sizeof_long ilp32 = 4
   \<and> run_expr tu (sample_env ilp32) sample_mem (Call ''pgm_read_dword'' [Var ''d''])
       = Some (VInt 0, sample_mem)
   \<and> load ilp32 sample_mem (TName ''uint32_t'') 20 = Some (VInt 0)"
proof -
  have acc: "(''pgm_read_dword'', TULong) \<in> set accessor_type"
    by (simp add: accessor_type_def)
  have arg: "run_expr tu (sample_env ilp32) sample_mem (Var ''d'') = Some (VPtr TVoid 20, sample_mem)"
    by (rule sample_vars)
  have adr: "address_of (plat (sample_env ilp32)) (VPtr TVoid 20) = Some 20"
    by simp
  have sz: "sizeof_short ilp32 = 2" "sizeof_long ilp32 = 4"
    by (simp_all add: ilp32_def)
  note direct = pgm_read_is_direct_read [OF acc arg adr]
  from direct [THEN conjunct2, THEN conjunct1]
  have run: "run_expr tu (sample_env ilp32) sample_mem (Call ''pgm_read_dword'' [Var ''d''])
      = Some (VInt 0, sample_mem)"
    by (simp add: plat_sample_env sample_loads)
  from direct [THEN conjunct2, THEN conjunct2, THEN conjunct2, THEN conjunct2] sz(2)
  have "load ilp32 sample_mem (TName ''uint32_t'') 20 = Some (VInt 0)"
    by (simp add: plat_sample_env sample_loads)
  with acc arg sz run show ?thesis by simp
qed

text \<open>
  Claim C3, as stated, fails. The accessors dereference pointers to \<open>unsigned char\<close>,
  \<open>unsigned short\<close>, \<open>unsigned long\<close>, \<open>float\<close> and \<open>void *\<close>, whose widths are the
  compiler's. On an LP64 host \<open>unsigned long\<close> has 8 bytes: \<open>pgm_read_dword\<close> at
  address 24 of the sample memory reads the eight bytes \<open>0xFF\<close> there and yields
  \<open>2^64 - 1\<close>, which is not a 32-bit value.
\<close>

theorem dword_is_64_bits_on_lp64:
  "sizeof lp64 TULong = Some 8
   \<and> run_expr tu (sample_env lp64) sample_mem (Call ''pgm_read_dword'' [Var ''p''])
       = Some (VInt 18446744073709551615, sample_mem)
   \<and> \<not> unsigned_bits 32 (VInt 18446744073709551615)"
proof -
  have rt: "(''pgm_read_dword'', TULong) \<in> set read_type"
    by (simp add: read_type_def accessor_type_def)
  have arg: "run_expr tu (sample_env lp64) sample_mem (Var ''p'') = Some (VPtr TVoid 24, sample_mem)"
    by (rule sample_vars)
  have "run_expr tu (sample_env lp64) sample_mem (Call ''pgm_read_dword'' [Var ''p''])
       = Some (VInt 18446744073709551615, sample_mem)"
    using run_read_load [OF rt arg, of 24] by (simp add: plat_sample_env sample_loads)
  then show ?thesis by (simp add: unsigned_bits_def lp64_def)
qed

text \<open>
  Claim C3, amended. Each base accessor reads exactly the bytes of the C type it casts
  to, at the address its argument denotes, and yields a value of that type's width on
  the platform: 8 bits for \<open>pgm_read_byte\<close>, the width of \<open>unsigned short\<close> for
  \<open>pgm_read_word\<close>, the width of \<open>unsigned long\<close> for \<open>pgm_read_dword\<close> (16 and 32 bits
  exactly where \<open>short\<close> has 2 bytes and \<open>long\<close> has 4), a \<open>float\<close> for
  \<open>pgm_read_float\<close> and a pointer-sized address for \<open>pgm_read_ptr\<close>.
\<close>

theorem accessor_reads_platform_width:
  assumes acc: "(nm, ty) \<in> set accessor_type"
    and arg: "run_expr tu E mem a = Some (v, mem')"
    and adr: "address_of (plat E) v = Some p"
    and run: "run_expr tu E mem (Call nm [a]) = Some (r, mem'')"
  shows "\<exists>n bs. sizeof (plat E) ty = Some n \<and> mem_bytes mem' p n = Some bs \<and> length bs = n
           \<and> decode (plat E) ty bs = Some r
           \<and> (nm = ''pgm_read_byte'' \<longrightarrow> n = 1 \<and> unsigned_bits 8 r)
           \<and> (nm = ''pgm_read_word'' \<longrightarrow>
                n = sizeof_short (plat E) \<and> unsigned_bits (8 * sizeof_short (plat E)) r)
           \<and> (nm = ''pgm_read_dword'' \<longrightarrow>
                n = sizeof_long (plat E) \<and> unsigned_bits (8 * sizeof_long (plat E)) r)
           \<and> (nm = ''pgm_read_float'' \<longrightarrow> n = sizeof_float (plat E) \<and> r = VFloat bs)
           \<and> (nm = ''pgm_read_ptr'' \<longrightarrow>
                n = sizeof_ptr (plat E)
                \<and> (\<exists>q. r = VPtr TVoid q \<and> q < 2 ^ (8 * sizeof_ptr (plat E))))"
proof -
  from run_read_load [OF accessor_in_read_type [OF acc] arg adr] run
  have "map_option (\<lambda>r. (r, mem')) (load (plat E) mem' ty p) = Some (r, mem'')" by simp
  then have "load (plat E) mem' ty p = Some r"
    by (cases "load (plat E) mem' ty p") auto
  then obtain n bs where sz: "sizeof (plat E) ty = Some n"
    and bs: "mem_bytes mem' p n = Some bs" "length bs = n"
    and dec: "decode (plat E) ty bs = Some r"
    by (rule load_SomeD)
  from acc consider
      (byte) "nm = ''pgm_read_byte''" "ty = TUChar"
    | (word) "nm = ''pgm_read_word''" "ty = TUShort"
    | (dword) "nm = ''pgm_read_dword''" "ty = TULong"
    | (float) "nm = ''pgm_read_float''" "ty = TFloat"
    | (ptr) "nm = ''pgm_read_ptr''" "ty = TPtr TVoid"
    by (auto simp: accessor_type_def)
  then have "(nm = ''pgm_read_byte'' \<longrightarrow> n = 1 \<and> unsigned_bits 8 r)
           \<and> (nm = ''pgm_read_word'' \<longrightarrow>
                n = sizeof_short (plat E) \<and> unsigned_bits (8 * sizeof_short (plat E)) r)
           \<and> (nm = ''pgm_read_dword'' \<longrightarrow>
                n = sizeof_long (plat E) \<and> unsigned_bits (8 * sizeof_long (plat E)) r)
           \<and> (nm = ''pgm_read_float'' \<longrightarrow> n = sizeof_float (plat E) \<and> r = VFloat bs)
           \<and> (nm = ''pgm_read_ptr'' \<longrightarrow>
                n = sizeof_ptr (plat E)
                \<and> (\<exists>q. r = VPtr TVoid q \<and> q < 2 ^ (8 * sizeof_ptr (plat E))))"
  proof cases
    case byte
    from dec byte have "r = VInt (int (uint_value (plat E) bs))" by simp
    moreover from sz byte have "n = 1" by simp
    ultimately show ?thesis
      using byte bs(2) unsigned_bits_uint [of bs "plat E"] by simp
  next
    case word
    from dec word have "r = VInt (int (uint_value (plat E) bs))" by simp
    moreover from sz word have "n = sizeof_short (plat E)" by simp
    ultimately show ?thesis
      using word bs(2) unsigned_bits_uint [of bs "plat E"] by simp
  next
    case dword
    from dec dword have "r = VInt (int (uint_value (plat E) bs))" by simp
    moreover from sz dword have "n = sizeof_long (plat E)" by simp
    ultimately show ?thesis
      using dword bs(2) unsigned_bits_uint [of bs "plat E"] by simp
  next
    case float
    from dec float have "r = VFloat bs" by simp
    moreover from sz float have "n = sizeof_float (plat E)" by simp
    ultimately show ?thesis using float by simp
  next
    case ptr
    from dec ptr have "r = VPtr TVoid (uint_value (plat E) bs)" by simp
    moreover from sz ptr have "n = sizeof_ptr (plat E)" by simp
    ultimately show ?thesis
      using ptr bs(2) uint_value_bound [of "plat E" bs] by simp
  qed
  with sz bs dec show ?thesis
    by - (rule exI [of _ n], rule exI [of _ bs], simp)
qed

theorem accessor_reads_platform_width_witness:
  "(''pgm_read_dword'', TULong) \<in> set accessor_type
   \<and> run_expr tu (sample_env ilp32) sample_mem (Var ''p'') = Some (VPtr TVoid 24, sample_mem)
   \<and> address_of ilp32 (VPtr TVoid 24) = Some 24
   \<and> run_expr tu (sample_env ilp32) sample_mem (Call ''pgm_read_dword'' [Var ''p''])
       = Some (VInt 4294967295, sample_mem)
   \<and> sizeof_long ilp32 = 4
   \<and> unsigned_bits 32 (VInt 4294967295)"
proof -
  have acc: "(''pgm_read_dword'', TULong) \<in> set accessor_type"
    by (simp add: accessor_type_def)
  have arg: "run_expr tu (sample_env ilp32) sample_mem (Var ''p'') = Some (VPtr TVoid 24, sample_mem)"
    by (rule sample_vars)
  have adr: "address_of (plat (sample_env ilp32)) (VPtr TVoid 24) = Some 24"
    by simp
  have run: "run_expr tu (sample_env ilp32) sample_mem (Call ''pgm_read_dword'' [Var ''p''])
       = Some (VInt 4294967295, sample_mem)"
    using run_read_load [OF accessor_in_read_type [OF acc] arg adr]
    by (simp add: plat_sample_env sample_loads)
  from accessor_reads_platform_width [OF acc arg adr run]
  have "unsigned_bits (8 * sizeof_long (plat (sample_env ilp32))) (VInt 4294967295)"
    by auto
  then have "unsigned_bits 32 (VInt 4294967295)"
    by (simp add: plat_sample_env ilp32_def)
  with acc arg run show ?thesis by (simp add: ilp32_def)
qed

text \<open>
  Claim C4. Each \<open>_near\<close> and \<open>_far\<close> variant is replaced by the same expression as
  its base accessor on the same argument, and so has the same outcome.
\<close>

theorem near_far_collapse:
  assumes "(v, b) \<in> set accessor_variants"
  shows "expand_in tu (Call v [a]) = expand_in tu (Call b [a])
       \<and> run_expr tu E mem (Call v [a]) = run_expr tu E mem (Call b [a])"
proof -
  from assms obtain ty where b: "(b, ty) \<in> set accessor_type" and v: "(v, ty) \<in> set read_type"
    by (rule variant_base)
  from b have b': "(b, ty) \<in> set read_type" by (rule accessor_in_read_type)
  show ?thesis by (simp add: expand_read [OF v] expand_read [OF b'] run_expr_def)
qed

theorem near_far_collapse_witness:
  "(''pgm_read_dword_far'', ''pgm_read_dword'') \<in> set accessor_variants
   \<and> expand_in tu (Call ''pgm_read_dword_far'' [Var ''p''])
       = expand_in tu (Call ''pgm_read_dword'' [Var ''p''])
   \<and> run_expr tu (sample_env ilp32) sample_mem (Call ''pgm_read_dword_far'' [Var ''p''])
       = run_expr tu (sample_env ilp32) sample_mem (Call ''pgm_read_dword'' [Var ''p''])"
  using near_far_collapse [of "''pgm_read_dword_far''" "''pgm_read_dword''" "Var ''p''"
      "sample_env ilp32" sample_mem]
  by (simp add: accessor_variants_def)

section \<open>The identity macros\<close>

text \<open>
  Claim C7. \<open>PSTR\<close> is the identity: \<open>PSTR(e)\<close> is replaced by \<open>(e)\<close> and evaluates to
  what \<open>e\<close> evaluates to; on a string literal it yields the literal itself.
\<close>

theorem PSTR_identity:
  "expand_in tu (Call ''PSTR'' [e]) = map_option Paren (expand_in tu e)
   \<and> run_expr tu E mem (Call ''PSTR'' [e]) = run_expr tu E mem e
   \<and> run_expr tu E mem (Call ''PSTR'' [StrLit s]) = Some (VPtr TChar (literal E s), mem)"
proof -
  have ex: "expand_in tu (Call ''PSTR'' [e]) = map_option Paren (expand_in tu e)" for e
    unfolding expand_in_def macros_tu by (rule expand_identity [OF identity_table(1)])
  have run: "run_expr tu E mem (Call ''PSTR'' [e]) = run_expr tu E mem e" for e
    unfolding run_expr_def ex by (cases "expand_in tu e") simp_all
  have "run_expr tu E mem (StrLit s) = Some (VPtr TChar (literal E s), mem)"
    by (simp add: run_expr_def expand_in_def)
  with ex run show ?thesis by simp
qed

theorem PSTR_identity_witness:
  "run_expr tu (sample_env lp64) sample_mem (Call ''PSTR'' [StrLit ''abc''])
   = Some (VPtr TChar 16, sample_mem)"
  using PSTR_identity [of "StrLit ''abc''" "sample_env lp64" sample_mem "''abc''",
      THEN conjunct2, THEN conjunct2]
  by (simp add: literal_sample_env)

text \<open>
  Claim C9. \<open>_SFR_BYTE\<close> is the identity: \<open>_SFR_BYTE(n)\<close> is replaced by \<open>(n)\<close> and
  evaluates to what \<open>n\<close> evaluates to.
\<close>

theorem SFR_BYTE_identity:
  "expand_in tu (Call ''_SFR_BYTE'' [n]) = map_option Paren (expand_in tu n)
   \<and> run_expr tu E mem (Call ''_SFR_BYTE'' [n]) = run_expr tu E mem n"
proof -
  have ex: "expand_in tu (Call ''_SFR_BYTE'' [n]) = map_option Paren (expand_in tu n)"
    unfolding expand_in_def macros_tu by (rule expand_identity [OF identity_table(2)])
  have "run_expr tu E mem (Call ''_SFR_BYTE'' [n]) = run_expr tu E mem n"
    unfolding run_expr_def ex by (cases "expand_in tu n") simp_all
  with ex show ?thesis by simp
qed

theorem SFR_BYTE_identity_witness:
  "run_expr tu (sample_env lp64) sample_mem (Call ''_SFR_BYTE'' [Var ''p''])
   = Some (VPtr TVoid 24, sample_mem)"
  using SFR_BYTE_identity [of "Var ''p''" "sample_env lp64" sample_mem, THEN conjunct2]
  by (simp add: sample_vars)

text \<open>
  Claim C10. Every accessor, base, \<open>_near\<close> or \<open>_far\<close>, is a pure read: when the read
  succeeds, the memory after it is the memory left by evaluating its argument, so the
  accessor itself changes nothing; and when the argument leaves the memory unchanged,
  evaluating the accessor again yields the same value.
\<close>

theorem pgm_read_pure:
  assumes "(nm, ty) \<in> set read_type"
    and "run_expr tu E mem a = Some (v, mem1)"
    and "run_expr tu E mem (Call nm [a]) = Some (r, mem')"
  shows "mem' = mem1
       \<and> (mem1 = mem \<longrightarrow> run_expr tu E mem' (Call nm [a]) = Some (r, mem'))"
proof -
  have "run_expr tu E mem (Call nm [a]) =
      (case address_of (plat E) v of
         None \<Rightarrow> None
       | Some p \<Rightarrow> map_option (\<lambda>r. (r, mem1)) (load (plat E) mem1 ty p))"
    by (simp add: run_read [OF assms(1)] run_direct_read [OF assms(2)])
  with assms(3) have "mem' = mem1" by (auto split: option.splits)
  with assms(3) show ?thesis by simp
qed

theorem pgm_read_pure_witness:
  "(''pgm_read_word_near'', TUShort) \<in> set read_type
   \<and> run_expr tu (sample_env ilp32) sample_mem (Var ''s'') = Some (VPtr TChar 16, sample_mem)
   \<and> run_expr tu (sample_env ilp32) sample_mem (Call ''pgm_read_word_near'' [Var ''s''])
       = Some (VInt 25185, sample_mem)"
proof -
  have rt: "(''pgm_read_word_near'', TUShort) \<in> set read_type"
    by (simp add: read_type_def accessor_type_def accessor_variants_def)
  have arg: "run_expr tu (sample_env ilp32) sample_mem (Var ''s'') = Some (VPtr TChar 16, sample_mem)"
    by (rule sample_vars)
  have rd: "run_expr tu (sample_env ilp32) sample_mem (Call ''pgm_read_word_near'' [Var ''s''])
       = Some (VInt 25185, sample_mem)"
    using run_read_load [OF rt arg, of 16] by (simp add: plat_sample_env sample_loads)
  from pgm_read_pure [OF rt arg rd] rt arg show ?thesis by simp
qed

section \<open>Facts about the typedefs\<close>

lemma typedefs_tu:
  "typedefs tu =
   [ (''prog_void'', TVoid), (''prog_char'', TChar), (''prog_uchar'', TUChar),
     (''prog_int8_t'', TName ''int8_t''), (''prog_uint8_t'', TName ''uint8_t''),
     (''prog_int16_t'', TName ''int16_t''), (''prog_uint16_t'', TName ''uint16_t''),
     (''prog_int32_t'', TName ''int32_t''), (''prog_uint32_t'', TName ''uint32_t''),
     (''prog_int64_t'', TName ''int64_t''), (''prog_uint64_t'', TName ''uint64_t'') ]"
  by code_simp

lemma alias_table:
  "list_all (\<lambda>(alias, std). canon (typedefs tu) (TName alias) = TName std \<and> stdint std \<noteq> None)
     fixed_aliases"
  unfolding typedefs_tu by code_simp

lemma alias_widths:
  "map (\<lambda>(alias, std). int_repr P (canon (typedefs tu) (TName alias))) fixed_aliases =
   [Some (True, 8), Some (False, 8), Some (True, 16), Some (False, 16),
    Some (True, 32), Some (False, 32), Some (True, 64), Some (False, 64)]"
  by (simp add: typedefs_tu fixed_aliases_def stdint_def)

section \<open>The integer type aliases\<close>

text \<open>
  Claim C5. Each \<open>prog_\<close> integer alias is a typedef of the exact-width type of
  \<open>inttypes.h\<close> it is named after: a declaration with the alias has that very type, hence
  its size and signedness, for the widths 8, 16, 32 and 64 bits, signed and unsigned.
\<close>

theorem prog_aliases_match_standard_types:
  assumes "(alias, std) \<in> set fixed_aliases"
  shows "canon (typedefs tu) (TName alias) = TName std
       \<and> int_repr P (canon (typedefs tu) (TName alias)) = stdint std
       \<and> sizeof P (canon (typedefs tu) (TName alias)) = sizeof P (TName std)
       \<and> stdint std \<noteq> None
       \<and> map (\<lambda>(alias, std). int_repr P (canon (typedefs tu) (TName alias))) fixed_aliases =
           [Some (True, 8), Some (False, 8), Some (True, 16), Some (False, 16),
            Some (True, 32), Some (False, 32), Some (True, 64), Some (False, 64)]"
proof -
  from assms alias_table
  have "canon (typedefs tu) (TName alias) = TName std" and "stdint std \<noteq> None"
    by (auto simp: list_all_iff)
  then show ?thesis using alias_widths [of P] by simp
qed

theorem prog_aliases_match_standard_types_witness:
  "(''prog_uint32_t'', ''uint32_t'') \<in> set fixed_aliases
   \<and> canon (typedefs tu) (TName ''prog_uint32_t'') = TName ''uint32_t''
   \<and> int_repr lp64 (canon (typedefs tu) (TName ''prog_uint32_t'')) = Some (False, 32)
   \<and> sizeof lp64 (canon (typedefs tu) (TName ''prog_uint32_t'')) = Some 4"
proof -
  have al: "(''prog_uint32_t'', ''uint32_t'') \<in> set fixed_aliases"
    by (simp add: fixed_aliases_def)
  from prog_aliases_match_standard_types [OF al, of lp64] al show ?thesis
    by (simp add: stdint_def)
qed

section \<open>The include guard\<close>

lemma exec_all_Cons: "exec_all (l # ls) s = exec_all ls (exec_line l s)"
  by (simp add: exec_all_def)

lemma run_skip:
  assumes "list_all plain ls"
  shows "run_lines (ls @ rest) (False # stk) s = run_lines rest (False # stk) s"
  using assms
proof (induction ls)
  case Nil
  then show ?case by simp
next
  case (Cons l ls)
  then show ?case by (cases l) (simp_all add: active_def)
qed

lemma run_exec:
  assumes "list_all plain ls"
  shows "run_lines (ls @ rest) (True # stk) s = run_lines rest (True # stk) (exec_all ls s)"
  using assms
proof (induction ls arbitrary: s)
  case Nil
  then show ?case by (simp add: exec_all_def)
next
  case (Cons l ls)
  then show ?case by (cases l) (simp_all add: active_def exec_all_Cons)
qed

lemma map_of_append_defined: "map_of xs k \<noteq> None \<Longrightarrow> map_of (xs @ ys) k \<noteq> None"
  by (induction xs) auto

lemma map_of_snoc_self: "map_of (xs @ [(n, v)]) n \<noteq> None"
  by (induction xs) (simp_all del: map_of_append)

lemma exec_line_defined:
  assumes "defined s g"
  shows "defined (exec_line l s) g"
proof (cases l)
  case (Define n ps b)
  have new: "map_of (filter (\<lambda>m. fst m \<noteq> n) (macros s) @ [(n, ps, b)]) g \<noteq> None"
  proof (cases "g = n")
    case True
    then show ?thesis by (simp only: map_of_snoc_self not_False_eq_True)
  next
    case False
    then have "map_of (filter (\<lambda>m. fst m \<noteq> n) (macros s)) g = map_of (macros s) g"
      using map_of_disable_other [of n g "macros s"] by (simp add: disable_def)
    with assms show ?thesis
      by (intro map_of_append_defined) (simp add: defined_def)
  qed
  from assms have old: "map_of (macros s @ [(n, ps, b)]) g \<noteq> None"
    by (intro map_of_append_defined) (simp add: defined_def)
  show ?thesis
  proof (cases "map_of (macros s) n")
    case None
    with old Define show ?thesis by (simp add: defined_def del: map_of_append)
  next
    case (Some d)
    with assms new Define show ?thesis by (simp add: defined_def del: map_of_append)
  qed
next
  case (Typedef ty n)
  with assms show ?thesis by (simp add: defined_def split: option.splits)
qed (use assms in \<open>simp_all add: defined_def\<close>)

lemma exec_all_defined: "defined s g \<Longrightarrow> defined (exec_all ls s) g"
  by (induction ls arbitrary: s) (simp_all add: exec_all_def exec_line_defined)

lemma exec_define_defined: "defined (exec_line (Define g ps b) s) g"
  using map_of_snoc_self [of "macros s" g "(ps, b)"]
    map_of_snoc_self [of "filter (\<lambda>m. fst m \<noteq> g) (macros s)" g "(ps, b)"]
  by (cases "map_of (macros s) g") (simp_all add: defined_def del: map_of_append)

lemma include_guarded:
  assumes "list_all plain body"
  shows "include_file (IfNDef g # Define g ps b # body @ [EndIf]) s =
         (if defined s g then s else exec_all (Define g ps b # body) s)"
proof (cases "defined s g")
  case True
  have "run_lines ((Define g ps b # body) @ [EndIf]) (False # []) s =
        run_lines [EndIf] (False # []) s"
    using assms by (intro run_skip) simp
  with True show ?thesis by (simp add: include_file_def active_def)
next
  case False
  have "run_lines ((Define g ps b # body) @ [EndIf]) (True # []) s =
        run_lines [EndIf] (True # []) (exec_all (Define g ps b # body) s)"
    using assms by (intro run_exec) simp
  with False show ?thesis by (simp add: include_file_def active_def)
qed

lemma include_guarded_defined:
  assumes "list_all plain body"
  shows "defined (include_file (IfNDef g # Define g ps b # body @ [EndIf]) s) g"
  unfolding include_guarded [OF assms]
  by (simp add: exec_all_Cons exec_all_defined exec_define_defined del: exec_line.simps)

lemma include_guarded_twice:
  assumes "list_all plain body"
  shows "include_file (IfNDef g # Define g ps b # body @ [EndIf])
           (include_file (IfNDef g # Define g ps b # body @ [EndIf]) s)
         = include_file (IfNDef g # Define g ps b # body @ [EndIf]) s"
  using include_guarded_defined [OF assms, of g ps b s]
  by (subst include_guarded [OF assms]) simp

lemma pgmspace_h_guarded:
  "pgmspace_h = IfNDef ''__PGMSPACE_H_'' # Define ''__PGMSPACE_H_'' None BEmpty
     # butlast (drop 2 pgmspace_h) @ [EndIf]"
  by (simp add: pgmspace_h_def)

lemma pgmspace_h_body_plain: "list_all plain (butlast (drop 2 pgmspace_h))"
  by (simp add: pgmspace_h_def)

lemma diags_tu: "diags tu = []"
  by code_simp

text \<open>
  Without the guard the second inclusion is diagnosed: the typedefs are declared again.
\<close>

lemma unguarded_twice_diagnosed:
  "diags (exec_all (butlast (drop 2 pgmspace_h)) (exec_all (butlast (drop 2 pgmspace_h)) init_state))
   \<noteq> []"
  by code_simp

text \<open>
  Claim C8. Including the header again is a no-op: in every state of the translation
  unit, including it twice leaves the state that including it once leaves, and two
  inclusions into a fresh translation unit produce no diagnostic.
\<close>

theorem include_guard_idempotent:
  "include_file pgmspace_h (include_file pgmspace_h s) = include_file pgmspace_h s
   \<and> diags (include_file pgmspace_h (include_file pgmspace_h init_state)) = []"
proof -
  have twice: "include_file pgmspace_h (include_file pgmspace_h s) = include_file pgmspace_h s" for s
    using include_guarded_twice [OF pgmspace_h_body_plain, of "''__PGMSPACE_H_''" None BEmpty s]
    by (simp add: pgmspace_h_guarded [symmetric])
  from twice [of init_state] have "include_file pgmspace_h tu = tu" by (simp add: tu_def)
  with diags_tu have "diags (include_file pgmspace_h (include_file pgmspace_h init_state)) = []"
    by (simp add: tu_def)
  with twice show ?thesis by simp
qed

theorem include_guard_idempotent_witness:
  "include_file pgmspace_h tu = tu \<and> diags (include_file pgmspace_h tu) = []"
  unfolding tu_def by (rule include_guard_idempotent)

section \<open>No failure of the header's own\<close>











end
